theory Spec2Isabelle
  imports Main
begin

section \<open>The ELF parser of qutebrowser/misc/elf.py\<close>

text \<open>
  A shallow embedding of \<^verbatim>\<open>qutebrowser/misc/elf.py\<close>. Bytes objects are lists of
  8-bit characters, Python's unbounded integers decoded from unsigned fields are natural
  numbers, every \<^verbatim>\<open>raise\<close> is a value of the exception type, and the file object is
  an explicit state that is passed through and returned.
\<close>

subsection \<open>Bytes and exceptions\<close>

type_synonym bytes = "char list"

text \<open>
  The exceptions of the standard library that the module can meet, and the messages
  (or wrapped causes) that \<^verbatim>\<open>ParseError\<close> is raised with.
\<close>

datatype pyexc = OSError | StructError | ValueError | IndexError | TypeError
  | UnicodeDecodeError

datatype msg = Cause pyexc
  | InvalidBitness nat
  | InvalidEndianness nat
  | InvalidMagic bytes
  | BigEndianUnsupported
  | UnsupportedVersion nat
  | NoRodataSection
  | NoMatchInRodata

datatype exn = ParseError msg | Lib pyexc

datatype Bitness = x32 | x64

datatype Endianness = little | big

text \<open>The enum constructors \<^verbatim>\<open>Bitness(klass)\<close> and \<^verbatim>\<open>Endianness(data)\<close>: a value
  that is not a member raises \<^verbatim>\<open>ValueError\<close>.\<close>

definition Bitness_of :: "nat \<Rightarrow> exn + Bitness" where
  "Bitness_of v = (if v = 1 then Inr x32 else if v = 2 then Inr x64 else Inl (Lib ValueError))"

definition Endianness_of :: "nat \<Rightarrow> exn + Endianness" where
  "Endianness_of v = (if v = 1 then Inr little else if v = 2 then Inr big else Inl (Lib ValueError))"

subsection \<open>The file object\<close>

text \<open>
  The binary file object: its content, the current position, and the calls it has
  received so far, oldest first. The platform decides which calls fail: \<open>faulty n\<close>
  says that the call number \<open>n\<close> (counted from 0 over the life of the file object)
  raises \<^verbatim>\<open>OSError\<close>; \<open>granularity\<close> is \<^verbatim>\<open>mmap.ALLOCATIONGRANULARITY\<close>.
\<close>

datatype io_call = Read nat | Seek nat | Mmap nat nat

record fobj =
  content :: bytes
  pos :: nat
  calls :: "io_call list"

record platform =
  faulty :: "nat \<Rightarrow> bool"
  granularity :: nat

definition open_rb :: "bytes \<Rightarrow> fobj" where
  "open_rb d = \<lparr>content = d, pos = 0, calls = []\<rparr>"

text \<open>\<^verbatim>\<open>fobj.read(n)\<close>: at most \<open>n\<close> bytes from the current position; fewer at the
  end of the file.\<close>

definition f_read :: "platform \<Rightarrow> nat \<Rightarrow> fobj \<Rightarrow> (exn + bytes) \<times> fobj" where
  "f_read env n f =
     (let f' = f\<lparr>calls := calls f @ [Read n]\<rparr>;
          got = take n (drop (pos f) (content f))
      in if faulty env (length (calls f)) then (Inl (Lib OSError), f')
         else (Inr got, f'\<lparr>pos := pos f + length got\<rparr>))"

text \<open>\<^verbatim>\<open>fobj.seek(offset)\<close> with a non-negative offset: a position past the end of the
  file is accepted.\<close>

definition f_seek :: "platform \<Rightarrow> nat \<Rightarrow> fobj \<Rightarrow> (exn + nat) \<times> fobj" where
  "f_seek env off f =
     (let f' = f\<lparr>calls := calls f @ [Seek off]\<rparr>
      in if faulty env (length (calls f)) then (Inl (Lib OSError), f')
         else (Inr off, f'\<lparr>pos := off\<rparr>))"

text \<open>
  \<^verbatim>\<open>mmap.mmap(f.fileno(), length, offset=offset, access=mmap.ACCESS_READ)\<close>.
  A length of 0 maps the file from the offset to its end; a range that is not inside the
  file raises \<^verbatim>\<open>ValueError\<close>; an offset that is not a multiple of the allocation
  granularity, or a failing system call, raises \<^verbatim>\<open>OSError\<close>.
\<close>

definition mmap_mmap :: "platform \<Rightarrow> nat \<Rightarrow> nat \<Rightarrow> fobj \<Rightarrow> (exn + bytes) \<times> fobj" where
  "mmap_mmap env len off f =
     (let f' = f\<lparr>calls := calls f @ [Mmap len off]\<rparr>;
          n = length (content f)
      in if len = 0 \<and> n \<le> off then (Inl (Lib ValueError), f')
         else if len \<noteq> 0 \<and> (n < off \<or> n - off < len) then (Inl (Lib ValueError), f')
         else if off mod granularity env \<noteq> 0 \<or> faulty env (length (calls f))
           then (Inl (Lib OSError), f')
         else (Inr (if len = 0 then drop off (content f) else take len (drop off (content f))), f'))"

subsection \<open>The struct module\<close>

text \<open>
  A format string in the little-endian standard mode (\<^verbatim>\<open><\<close>, no alignment) is a list
  of fields: \<^verbatim>\<open>Ns\<close> is \<open>Str N\<close>, \<^verbatim>\<open>Nx\<close> is \<open>Pad N\<close>, and \<^verbatim>\<open>B\<close>, \<^verbatim>\<open>H\<close>,
  \<^verbatim>\<open>I\<close>, \<^verbatim>\<open>Q\<close> are the unsigned integers of 1, 2, 4 and 8 bytes.
\<close>

datatype fld = Str nat | Pad nat | UInt nat

datatype val = VBytes bytes | VInt nat

abbreviation fB :: fld where "fB \<equiv> UInt 1"
abbreviation fH :: fld where "fH \<equiv> UInt 2"
abbreviation fI :: fld where "fI \<equiv> UInt 4"
abbreviation fQ :: fld where "fQ \<equiv> UInt 8"

fun fld_size :: "fld \<Rightarrow> nat" where
  "fld_size (Str n) = n"
| "fld_size (Pad n) = n"
| "fld_size (UInt n) = n"

fun calcsize :: "fld list \<Rightarrow> nat" where
  "calcsize [] = 0"
| "calcsize (x # xs) = fld_size x + calcsize xs"

fun le_uint :: "bytes \<Rightarrow> nat" where
  "le_uint [] = 0"
| "le_uint (c # cs) = of_char c + 256 * le_uint cs"

fun unpack_fields :: "fld list \<Rightarrow> bytes \<Rightarrow> val list" where
  "unpack_fields [] d = []"
| "unpack_fields (Str n # fs) d = VBytes (take n d) # unpack_fields fs (drop n d)"
| "unpack_fields (Pad n # fs) d = unpack_fields fs (drop n d)"
| "unpack_fields (UInt n # fs) d = VInt (le_uint (take n d)) # unpack_fields fs (drop n d)"

text \<open>\<^verbatim>\<open>struct.unpack(fmt, data)\<close> raises \<^verbatim>\<open>struct.error\<close> unless the buffer has exactly
  the size of the format.\<close>

definition struct_unpack :: "fld list \<Rightarrow> bytes \<Rightarrow> exn + val list" where
  "struct_unpack fmt d =
     (if length d \<noteq> calcsize fmt then Inl (Lib StructError) else Inr (unpack_fields fmt d))"

text \<open>\<^verbatim>\<open>_unpack(fmt, fobj)\<close>: both handlers turn the one exception they name into a
  \<^verbatim>\<open>ParseError\<close>; anything else would propagate.\<close>

definition unpack :: "platform \<Rightarrow> fld list \<Rightarrow> fobj \<Rightarrow> (exn + val list) \<times> fobj" where
  "unpack env fmt f =
     (let size = calcsize fmt
      in case f_read env size f of
           (Inl e, f') \<Rightarrow>
             (if e = Lib OSError then (Inl (ParseError (Cause OSError)), f') else (Inl e, f'))
         | (Inr d, f') \<Rightarrow>
             (case struct_unpack fmt d of
                Inl e \<Rightarrow>
                  (if e = Lib StructError then (Inl (ParseError (Cause StructError)), f')
                   else (Inl e, f'))
              | Inr vs \<Rightarrow> (Inr vs, f')))"

subsection \<open>Ident, Header, SectionHeader\<close>

record Ident =
  magic :: bytes
  klass :: Bitness
  data :: Endianness
  version :: nat
  osabi :: nat
  abiversion :: nat

text \<open>\<^verbatim>\<open>'<4sBBBBB7x'\<close>\<close>

definition Ident_FORMAT :: "fld list" where
  "Ident_FORMAT = [Str 4, fB, fB, fB, fB, fB, Pad 7]"

definition Ident_parse :: "platform \<Rightarrow> fobj \<Rightarrow> (exn + Ident) \<times> fobj" where
  "Ident_parse env f =
     (case unpack env Ident_FORMAT f of
        (Inl e, f') \<Rightarrow> (Inl e, f')
      | (Inr vs, f') \<Rightarrow>
          (case vs of
             [VBytes m, VInt k, VInt d, VInt v, VInt os, VInt abi] \<Rightarrow>
               (case Bitness_of k of
                  Inl e \<Rightarrow>
                    (if e = Lib ValueError then (Inl (ParseError (InvalidBitness k)), f')
                     else (Inl e, f'))
                | Inr bitness \<Rightarrow>
                    (case Endianness_of d of
                       Inl e \<Rightarrow>
                         (if e = Lib ValueError then (Inl (ParseError (InvalidEndianness d)), f')
                          else (Inl e, f'))
                     | Inr endianness \<Rightarrow>
                         (Inr \<lparr>magic = m, klass = bitness, data = endianness, version = v,
                               osabi = os, abiversion = abi\<rparr>, f')))
           | _ \<Rightarrow> (Inl (Lib TypeError), f')))"

text \<open>The fields of \<^verbatim>\<open>Header\<close>; \<^verbatim>\<open>typ\<close> and \<^verbatim>\<open>version\<close> are \<open>htyp\<close> and
  \<open>hversion\<close> here (a keyword, and a field of \<open>Ident\<close>).\<close>

record Header =
  htyp :: nat
  machine :: nat
  hversion :: nat
  entry :: nat
  phoff :: nat
  shoff :: nat
  flags :: nat
  ehsize :: nat
  phentsize :: nat
  phnum :: nat
  shentsize :: nat
  shnum :: nat
  shstrndx :: nat

text \<open>\<^verbatim>\<open>'<HHIQQQIHHHHHH'\<close> and \<^verbatim>\<open>'<HHIIIIIHHHHHH'\<close>\<close>

fun Header_FORMATS :: "Bitness \<Rightarrow> fld list" where
  "Header_FORMATS x64 = [fH, fH, fI, fQ, fQ, fQ, fI, fH, fH, fH, fH, fH, fH]"
| "Header_FORMATS x32 = [fH, fH, fI, fI, fI, fI, fI, fH, fH, fH, fH, fH, fH]"

definition Header_make :: "val list \<Rightarrow> exn + Header" where
  "Header_make vs =
     (case vs of
        [VInt a, VInt b, VInt c, VInt d, VInt e, VInt g, VInt h, VInt i, VInt j, VInt k,
         VInt l, VInt m, VInt n] \<Rightarrow>
          Inr \<lparr>htyp = a, machine = b, hversion = c, entry = d, phoff = e, shoff = g,
               flags = h, ehsize = i, phentsize = j, phnum = k, shentsize = l, shnum = m,
               shstrndx = n\<rparr>
      | _ \<Rightarrow> Inl (Lib TypeError))"

definition Header_parse :: "platform \<Rightarrow> Bitness \<Rightarrow> fobj \<Rightarrow> (exn + Header) \<times> fobj" where
  "Header_parse env bitness f =
     (case unpack env (Header_FORMATS bitness) f of
        (Inl e, f') \<Rightarrow> (Inl e, f')
      | (Inr vs, f') \<Rightarrow> (Header_make vs, f'))"

text \<open>The fields of \<^verbatim>\<open>SectionHeader\<close>, each with the prefix \<open>sh_\<close>.\<close>

record SectionHeader =
  sh_name :: nat
  sh_typ :: nat
  sh_flags :: nat
  sh_addr :: nat
  sh_offset :: nat
  sh_size :: nat
  sh_link :: nat
  sh_info :: nat
  sh_addralign :: nat
  sh_entsize :: nat

text \<open>\<^verbatim>\<open>'<IIQQQQIIQQ'\<close> and \<^verbatim>\<open>'<IIIIIIIIII'\<close>\<close>

fun SectionHeader_FORMATS :: "Bitness \<Rightarrow> fld list" where
  "SectionHeader_FORMATS x64 = [fI, fI, fQ, fQ, fQ, fQ, fI, fI, fQ, fQ]"
| "SectionHeader_FORMATS x32 = [fI, fI, fI, fI, fI, fI, fI, fI, fI, fI]"

definition SectionHeader_make :: "val list \<Rightarrow> exn + SectionHeader" where
  "SectionHeader_make vs =
     (case vs of
        [VInt a, VInt b, VInt c, VInt d, VInt e, VInt g, VInt h, VInt i, VInt j, VInt k] \<Rightarrow>
          Inr \<lparr>sh_name = a, sh_typ = b, sh_flags = c, sh_addr = d, sh_offset = e,
               sh_size = g, sh_link = h, sh_info = i, sh_addralign = j, sh_entsize = k\<rparr>
      | _ \<Rightarrow> Inl (Lib TypeError))"

definition SectionHeader_parse ::
  "platform \<Rightarrow> Bitness \<Rightarrow> fobj \<Rightarrow> (exn + SectionHeader) \<times> fobj" where
  "SectionHeader_parse env bitness f =
     (case unpack env (SectionHeader_FORMATS bitness) f of
        (Inl e, f') \<Rightarrow> (Inl e, f')
      | (Inr vs, f') \<Rightarrow> (SectionHeader_make vs, f'))"

subsection \<open>Locating the section\<close>

text \<open>
  \<^verbatim>\<open>bytes.split(sep)\<close> for a separator of one byte, and the subscript \<^verbatim>\<open>[0]\<close>, which
  raises \<^verbatim>\<open>IndexError\<close> on an empty list.
\<close>

fun bytes_split :: "char \<Rightarrow> bytes \<Rightarrow> bytes list" where
  "bytes_split sep [] = [[]]"
| "bytes_split sep (c # cs) =
     (if c = sep then [] # bytes_split sep cs
      else (case bytes_split sep cs of
              [] \<Rightarrow> [[c]]
            | p # ps \<Rightarrow> (c # p) # ps))"

definition item0 :: "'a list \<Rightarrow> exn + 'a" where
  "item0 xs = (case xs of [] \<Rightarrow> Inl (Lib IndexError) | x # _ \<Rightarrow> Inr x)"

definition NUL :: char where
  "NUL = CHR 0x00"

text \<open>Line 223: \<^verbatim>\<open>string_table[sh.name:].split(b'\x00')[0]\<close>. A slice that starts past
  the end of a bytes object is empty.\<close>

definition section_name :: "bytes \<Rightarrow> nat \<Rightarrow> exn + bytes" where
  "section_name string_table n = item0 (bytes_split NUL (drop n string_table))"

definition ELF_MAGIC :: bytes where
  "ELF_MAGIC = [CHR 0x7F, CHR ''E'', CHR ''L'', CHR ''F'']"

definition rodata :: bytes where
  "rodata = ''.rodata''"

text \<open>The loop of \<^verbatim>\<open>get_rodata_header\<close>, \<^verbatim>\<open>for i in range(header.shnum)\<close>, from the
  index \<open>i\<close> on.\<close>

function scan_sections ::
  "platform \<Rightarrow> Bitness \<Rightarrow> Header \<Rightarrow> bytes \<Rightarrow> nat \<Rightarrow> fobj \<Rightarrow> (exn + SectionHeader) \<times> fobj" where
  "scan_sections env bitness header string_table i f =
     (if i < shnum header then
        (case f_seek env (shoff header + i * shentsize header) f of
           (Inl e, f1) \<Rightarrow> (Inl e, f1)
         | (Inr _, f1) \<Rightarrow>
             (case SectionHeader_parse env bitness f1 of
                (Inl e, f2) \<Rightarrow> (Inl e, f2)
              | (Inr sh, f2) \<Rightarrow>
                  (case section_name string_table (sh_name sh) of
                     Inl e \<Rightarrow> (Inl e, f2)
                   | Inr name \<Rightarrow>
                       if name = rodata then (Inr sh, f2)
                       else scan_sections env bitness header string_table (Suc i) f2)))
      else (Inl (ParseError NoRodataSection), f))"
  by pat_completeness auto
termination
  by (relation "measure (\<lambda>(env, bitness, header, string_table, i, f). shnum header - i)") auto

declare scan_sections.simps [simp del]

definition get_rodata_header :: "platform \<Rightarrow> fobj \<Rightarrow> (exn + SectionHeader) \<times> fobj" where
  "get_rodata_header env f =
     (case Ident_parse env f of
        (Inl e, f1) \<Rightarrow> (Inl e, f1)
      | (Inr ident, f1) \<Rightarrow>
          if magic ident \<noteq> ELF_MAGIC then (Inl (ParseError (InvalidMagic (magic ident))), f1)
          else if data ident \<noteq> little then (Inl (ParseError BigEndianUnsupported), f1)
          else if version ident \<noteq> 1 then
            (Inl (ParseError (UnsupportedVersion (version ident))), f1)
          else
            (case Header_parse env (klass ident) f1 of
               (Inl e, f2) \<Rightarrow> (Inl e, f2)
             | (Inr header, f2) \<Rightarrow>
                 (case f_seek env (shoff header + shstrndx header * shentsize header) f2 of
                    (Inl e, f3) \<Rightarrow> (Inl e, f3)
                  | (Inr _, f3) \<Rightarrow>
                      (case SectionHeader_parse env (klass ident) f3 of
                         (Inl e, f4) \<Rightarrow> (Inl e, f4)
                       | (Inr shstr, f4) \<Rightarrow>
                           (case f_seek env (sh_offset shstr) f4 of
                              (Inl e, f5) \<Rightarrow> (Inl e, f5)
                            | (Inr _, f5) \<Rightarrow>
                                (case f_read env (sh_size shstr) f5 of
                                   (Inl e, f6) \<Rightarrow> (Inl e, f6)
                                 | (Inr string_table, f6) \<Rightarrow>
                                     scan_sections env (klass ident) header string_table 0
                                       f6))))))"

subsection \<open>Searching the versions\<close>

text \<open>
  The regular expressions that the module needs: a sequence of literals and of capturing
  groups \<^verbatim>\<open>([...]+)\<close> over a character class. A group is greedy: it takes the longest
  run of the class first and gives characters back one by one while the rest of the
  pattern does not match. \<^verbatim>\<open>re.search\<close> returns the match at the leftmost position
  that has one.
\<close>

datatype re_item = Lit bytes | GroupPlus "char list"

fun greedy :: "(bytes \<Rightarrow> bytes list option) \<Rightarrow> bytes \<Rightarrow> nat \<Rightarrow> bytes list option" where
  "greedy k s 0 = None"
| "greedy k s (Suc n) =
     (case k (drop (Suc n) s) of
        Some gs \<Rightarrow> Some (take (Suc n) s # gs)
      | None \<Rightarrow> greedy k s n)"

primrec re_match :: "re_item list \<Rightarrow> bytes \<Rightarrow> bytes list option" where
  "re_match [] = (\<lambda>s. Some [])"
| "re_match (it # r) =
     (\<lambda>s. case it of
        Lit l \<Rightarrow> if take (length l) s = l then re_match r (drop (length l) s) else None
      | GroupPlus cls \<Rightarrow> greedy (re_match r) s (length (takeWhile (\<lambda>c. c \<in> set cls) s)))"

fun re_search :: "re_item list \<Rightarrow> bytes \<Rightarrow> bytes list option" where
  "re_search p [] = re_match p []"
| "re_search p (c # cs) =
     (case re_match p (c # cs) of
        Some gs \<Rightarrow> Some gs
      | None \<Rightarrow> re_search p cs)"

text \<open>\<^verbatim>\<open>br'QtWebEngine/([0-9.]+) Chrome/([0-9.]+)'\<close>\<close>

definition version_chars :: "char list" where
  "version_chars = ''0123456789.''"

definition VERSION_RE :: "re_item list" where
  "VERSION_RE =
     [Lit ''QtWebEngine/'', GroupPlus version_chars, Lit '' Chrome/'', GroupPlus version_chars]"

text \<open>\<^verbatim>\<open>bytes.decode('ascii')\<close>\<close>

definition decode_ascii :: "bytes \<Rightarrow> exn + string" where
  "decode_ascii b =
     (if list_all (\<lambda>c. (of_char c :: nat) < 128) b then Inr b else Inl (Lib UnicodeDecodeError))"

record Versions =
  webengine :: string
  chromium :: string

text \<open>Lines 251 to 264 of \<^verbatim>\<open>_parse_from_path\<close>: the search in the mapped section.\<close>

definition find_versions :: "bytes \<Rightarrow> exn + Versions" where
  "find_versions region =
     (case re_search VERSION_RE region of
        None \<Rightarrow> Inl (ParseError NoMatchInRodata)
      | Some gs \<Rightarrow>
          (case gs of
             [g1, g2] \<Rightarrow>
               (case decode_ascii g1 of
                  Inl e \<Rightarrow>
                    (if e = Lib UnicodeDecodeError then Inl (ParseError (Cause UnicodeDecodeError))
                     else Inl e)
                | Inr w \<Rightarrow>
                    (case decode_ascii g2 of
                       Inl e \<Rightarrow>
                         (if e = Lib UnicodeDecodeError
                          then Inl (ParseError (Cause UnicodeDecodeError)) else Inl e)
                     | Inr c \<Rightarrow> Inr \<lparr>webengine = w, chromium = c\<rparr>))
           | _ \<Rightarrow> Inl (Lib IndexError)))"

subsection \<open>The pipeline\<close>

definition parse_from_path :: "platform \<Rightarrow> bytes \<Rightarrow> exn + Versions" where
  "parse_from_path env file =
     (case get_rodata_header env (open_rb file) of
        (Inl e, f) \<Rightarrow> Inl e
      | (Inr sh, f) \<Rightarrow>
          (case mmap_mmap env (sh_size sh) (sh_offset sh) f of
             (Inl e, f') \<Rightarrow> (if e = Lib OSError then Inl (ParseError (Cause OSError)) else Inl e)
           | (Inr region, f') \<Rightarrow> find_versions region))"

text \<open>\<^verbatim>\<open>parse_webenginecore\<close>: the library file is \<open>None\<close> when the path does not
  exist. \<open>Inl\<close> is an exception that leaves the function, \<open>Inr None\<close> the value
  \<^verbatim>\<open>None\<close>.\<close>

definition parse_webenginecore :: "platform \<Rightarrow> bytes option \<Rightarrow> exn + Versions option" where
  "parse_webenginecore env lib_file =
     (case lib_file of
        None \<Rightarrow> Inr None
      | Some file \<Rightarrow>
          (case parse_from_path env file of
             Inl (ParseError m) \<Rightarrow> Inr None
           | Inl (Lib e) \<Rightarrow> Inl (Lib e)
           | Inr v \<Rightarrow> Inr (Some v)))"

section \<open>Notions used to state the properties\<close>

text \<open>A platform on which no call on the file object fails.\<close>

definition reliable :: "platform \<Rightarrow> bool" where
  "reliable env \<longleftrightarrow> (\<forall>n. \<not> faulty env n)"

text \<open>The name of a section in the words of the format: the bytes of the string table
  from the name offset of the entry up to, and without, the next null byte.\<close>

definition name_of :: "bytes \<Rightarrow> SectionHeader \<Rightarrow> bytes" where
  "name_of string_table sh = takeWhile (\<lambda>c. c \<noteq> NUL) (drop (sh_name sh) string_table)"

text \<open>The entry number \<open>j\<close> of the section header table, as \<^verbatim>\<open>SectionHeader.parse\<close>
  decodes it at its place in the file.\<close>

definition entry :: "platform \<Rightarrow> Bitness \<Rightarrow> Header \<Rightarrow> bytes \<Rightarrow> nat \<Rightarrow> exn + SectionHeader" where
  "entry env bitness header file j =
     fst (SectionHeader_parse env bitness
            \<lparr>content = file, pos = shoff header + j * shentsize header, calls = []\<rparr>)"

text \<open>The calls that the loop makes on the file object when it visits the entries
  \<open>js\<close>: one seek and one read for each.\<close>

definition visits :: "Bitness \<Rightarrow> Header \<Rightarrow> nat list \<Rightarrow> io_call list" where
  "visits bitness header js =
     concat (map (\<lambda>j. [Seek (shoff header + j * shentsize header),
                        Read (calcsize (SectionHeader_FORMATS bitness))]) js)"

text \<open>Lines 200 to 217 of \<^verbatim>\<open>get_rodata_header\<close>, everything before the loop: the
  identification block, the header and the string table.\<close>

definition read_headers :: "platform \<Rightarrow> fobj \<Rightarrow> (exn + Bitness \<times> Header \<times> bytes) \<times> fobj" where
  "read_headers env f =
     (case Ident_parse env f of
        (Inl e, f1) \<Rightarrow> (Inl e, f1)
      | (Inr ident, f1) \<Rightarrow>
          if magic ident \<noteq> ELF_MAGIC then (Inl (ParseError (InvalidMagic (magic ident))), f1)
          else if data ident \<noteq> little then (Inl (ParseError BigEndianUnsupported), f1)
          else if version ident \<noteq> 1 then
            (Inl (ParseError (UnsupportedVersion (version ident))), f1)
          else
            (case Header_parse env (klass ident) f1 of
               (Inl e, f2) \<Rightarrow> (Inl e, f2)
             | (Inr header, f2) \<Rightarrow>
                 (case f_seek env (shoff header + shstrndx header * shentsize header) f2 of
                    (Inl e, f3) \<Rightarrow> (Inl e, f3)
                  | (Inr _, f3) \<Rightarrow>
                      (case SectionHeader_parse env (klass ident) f3 of
                         (Inl e, f4) \<Rightarrow> (Inl e, f4)
                       | (Inr shstr, f4) \<Rightarrow>
                           (case f_seek env (sh_offset shstr) f4 of
                              (Inl e, f5) \<Rightarrow> (Inl e, f5)
                            | (Inr _, f5) \<Rightarrow>
                                (case f_read env (sh_size shstr) f5 of
                                   (Inl e, f6) \<Rightarrow> (Inl e, f6)
                                 | (Inr string_table, f6) \<Rightarrow>
                                     (Inr (klass ident, header, string_table), f6)))))))"

text \<open>The check of the identification block that fails first, in the order in which
  \<^verbatim>\<open>Ident.parse\<close> and then \<^verbatim>\<open>get_rodata_header\<close> make them, as a function of the 16
  bytes read.\<close>

definition ident_violation :: "bytes \<Rightarrow> msg option" where
  "ident_violation d =
     (if length d < 16 then Some (Cause StructError)
      else if of_char (d ! 4) \<noteq> (1::nat) \<and> of_char (d ! 4) \<noteq> (2::nat)
        then Some (InvalidBitness (of_char (d ! 4)))
      else if of_char (d ! 5) \<noteq> (1::nat) \<and> of_char (d ! 5) \<noteq> (2::nat)
        then Some (InvalidEndianness (of_char (d ! 5)))
      else if take 4 d \<noteq> ELF_MAGIC then Some (InvalidMagic (take 4 d))
      else if of_char (d ! 5) = (2::nat) then Some BigEndianUnsupported
      else if of_char (d ! 6) \<noteq> (1::nat) then Some (UnsupportedVersion (of_char (d ! 6)))
      else None)"

subsection \<open>Example inputs\<close>

definition sound_platform :: platform where
  "sound_platform = \<lparr>faulty = (\<lambda>n. False), granularity = 4096\<rparr>"

text \<open>An identification block with the given magic, class, byte order and version.\<close>

definition ident_block :: "bytes \<Rightarrow> nat \<Rightarrow> nat \<Rightarrow> nat \<Rightarrow> bytes" where
  "ident_block m k d v = m @ [char_of k, char_of d, char_of v, NUL, NUL] @ replicate 7 NUL"

text \<open>A 64-bit little-endian image: identification block and header (section header table
  at 64, entries of 64 bytes, 3 entries, string table at index 2), three section header
  entries, the string table at 256 and, after padding with null bytes, the content of the
  second section at 4096.\<close>

definition elf_head :: bytes where
  "elf_head = [
      CHR 0x7F, CHR ''E'', CHR ''L'', CHR ''F'', CHR 0x02, CHR 0x01, CHR 0x01, CHR 0x00,
      CHR 0x00, CHR 0x00, CHR 0x00, CHR 0x00, CHR 0x00, CHR 0x00, CHR 0x00, CHR 0x00,
      CHR 0x03, CHR 0x00, CHR 0x3E, CHR 0x00, CHR 0x01, CHR 0x00, CHR 0x00, CHR 0x00,
      CHR 0x00, CHR 0x00, CHR 0x00, CHR 0x00, CHR 0x00, CHR 0x00, CHR 0x00, CHR 0x00,
      CHR 0x00, CHR 0x00, CHR 0x00, CHR 0x00, CHR 0x00, CHR 0x00, CHR 0x00, CHR 0x00,
      CHR 0x40, CHR 0x00, CHR 0x00, CHR 0x00, CHR 0x00, CHR 0x00, CHR 0x00, CHR 0x00,
      CHR 0x00, CHR 0x00, CHR 0x00, CHR 0x00, CHR 0x40, CHR 0x00, CHR 0x00, CHR 0x00,
      CHR 0x00, CHR 0x00, CHR 0x40, CHR 0x00, CHR 0x03, CHR 0x00, CHR 0x02, CHR 0x00]"

text \<open>The entry of the null section.\<close>

definition sec_null :: bytes where
  "sec_null = [
      CHR 0x00, CHR 0x00, CHR 0x00, CHR 0x00, CHR 0x00, CHR 0x00, CHR 0x00, CHR 0x00,
      CHR 0x00, CHR 0x00, CHR 0x00, CHR 0x00, CHR 0x00, CHR 0x00, CHR 0x00, CHR 0x00,
      CHR 0x00, CHR 0x00, CHR 0x00, CHR 0x00, CHR 0x00, CHR 0x00, CHR 0x00, CHR 0x00,
      CHR 0x00, CHR 0x00, CHR 0x00, CHR 0x00, CHR 0x00, CHR 0x00, CHR 0x00, CHR 0x00,
      CHR 0x00, CHR 0x00, CHR 0x00, CHR 0x00, CHR 0x00, CHR 0x00, CHR 0x00, CHR 0x00,
      CHR 0x00, CHR 0x00, CHR 0x00, CHR 0x00, CHR 0x00, CHR 0x00, CHR 0x00, CHR 0x00,
      CHR 0x01, CHR 0x00, CHR 0x00, CHR 0x00, CHR 0x00, CHR 0x00, CHR 0x00, CHR 0x00,
      CHR 0x00, CHR 0x00, CHR 0x00, CHR 0x00, CHR 0x00, CHR 0x00, CHR 0x00, CHR 0x00]"

text \<open>An entry with the name offset 1 (\<^verbatim>\<open>.rodata\<close>), the file offset 4096 and the
  size 53, and the same entry with the size 46.\<close>

definition sec_rodata53 :: bytes where
  "sec_rodata53 = [
      CHR 0x01, CHR 0x00, CHR 0x00, CHR 0x00, CHR 0x01, CHR 0x00, CHR 0x00, CHR 0x00,
      CHR 0x02, CHR 0x00, CHR 0x00, CHR 0x00, CHR 0x00, CHR 0x00, CHR 0x00, CHR 0x00,
      CHR 0x00, CHR 0x00, CHR 0x00, CHR 0x00, CHR 0x00, CHR 0x00, CHR 0x00, CHR 0x00,
      CHR 0x00, CHR 0x10, CHR 0x00, CHR 0x00, CHR 0x00, CHR 0x00, CHR 0x00, CHR 0x00,
      CHR ''5'', CHR 0x00, CHR 0x00, CHR 0x00, CHR 0x00, CHR 0x00, CHR 0x00, CHR 0x00,
      CHR 0x00, CHR 0x00, CHR 0x00, CHR 0x00, CHR 0x00, CHR 0x00, CHR 0x00, CHR 0x00,
      CHR 0x01, CHR 0x00, CHR 0x00, CHR 0x00, CHR 0x00, CHR 0x00, CHR 0x00, CHR 0x00,
      CHR 0x00, CHR 0x00, CHR 0x00, CHR 0x00, CHR 0x00, CHR 0x00, CHR 0x00, CHR 0x00]"

definition sec_rodata46 :: bytes where
  "sec_rodata46 = [
      CHR 0x01, CHR 0x00, CHR 0x00, CHR 0x00, CHR 0x01, CHR 0x00, CHR 0x00, CHR 0x00,
      CHR 0x02, CHR 0x00, CHR 0x00, CHR 0x00, CHR 0x00, CHR 0x00, CHR 0x00, CHR 0x00,
      CHR 0x00, CHR 0x00, CHR 0x00, CHR 0x00, CHR 0x00, CHR 0x00, CHR 0x00, CHR 0x00,
      CHR 0x00, CHR 0x10, CHR 0x00, CHR 0x00, CHR 0x00, CHR 0x00, CHR 0x00, CHR 0x00,
      CHR ''.'', CHR 0x00, CHR 0x00, CHR 0x00, CHR 0x00, CHR 0x00, CHR 0x00, CHR 0x00,
      CHR 0x00, CHR 0x00, CHR 0x00, CHR 0x00, CHR 0x00, CHR 0x00, CHR 0x00, CHR 0x00,
      CHR 0x01, CHR 0x00, CHR 0x00, CHR 0x00, CHR 0x00, CHR 0x00, CHR 0x00, CHR 0x00,
      CHR 0x00, CHR 0x00, CHR 0x00, CHR 0x00, CHR 0x00, CHR 0x00, CHR 0x00, CHR 0x00]"

text \<open>An entry with the name offset 9 (\<^verbatim>\<open>.shstrtab\<close>), the file offset 256 and the
  size 19.\<close>

definition sec_shstrtab :: bytes where
  "sec_shstrtab = [
      CHR 0x09, CHR 0x00, CHR 0x00, CHR 0x00, CHR 0x03, CHR 0x00, CHR 0x00, CHR 0x00,
      CHR 0x00, CHR 0x00, CHR 0x00, CHR 0x00, CHR 0x00, CHR 0x00, CHR 0x00, CHR 0x00,
      CHR 0x00, CHR 0x00, CHR 0x00, CHR 0x00, CHR 0x00, CHR 0x00, CHR 0x00, CHR 0x00,
      CHR 0x00, CHR 0x01, CHR 0x00, CHR 0x00, CHR 0x00, CHR 0x00, CHR 0x00, CHR 0x00,
      CHR 0x13, CHR 0x00, CHR 0x00, CHR 0x00, CHR 0x00, CHR 0x00, CHR 0x00, CHR 0x00,
      CHR 0x00, CHR 0x00, CHR 0x00, CHR 0x00, CHR 0x00, CHR 0x00, CHR 0x00, CHR 0x00,
      CHR 0x01, CHR 0x00, CHR 0x00, CHR 0x00, CHR 0x00, CHR 0x00, CHR 0x00, CHR 0x00,
      CHR 0x00, CHR 0x00, CHR 0x00, CHR 0x00, CHR 0x00, CHR 0x00, CHR 0x00, CHR 0x00]"

definition strtab :: bytes where
  "strtab = [
      CHR 0x00, CHR ''.'', CHR ''r'', CHR ''o'', CHR ''d'', CHR ''a'', CHR ''t'', CHR ''a'',
      CHR 0x00, CHR ''.'', CHR ''s'', CHR ''h'', CHR ''s'', CHR ''t'', CHR ''r'', CHR ''t'',
      CHR ''a'', CHR ''b'', CHR 0x00]"

definition elf_image :: "bytes \<Rightarrow> bytes \<Rightarrow> bytes" where
  "elf_image sec1 region =
     elf_head @ sec_null @ sec1 @ sec_shstrtab @ strtab @ replicate 3821 NUL @ region"

definition region_ok :: bytes where
  "region_ok = ''xxQtWebEngine/89.0.4389.90 Chrome/89.0.4389.90 Safari''"

definition region_longer :: bytes where
  "region_longer = ''xQtWebEngine/89.0.4389.90 Chrome/89.0.4389.901''"

definition hdr3 :: Header where
  "hdr3 = \<lparr>htyp = 3, machine = 62, hversion = 1, entry = 0, phoff = 0, shoff = 64,
            flags = 0, ehsize = 64, phentsize = 0, phnum = 0, shentsize = 64, shnum = 3,
            shstrndx = 2\<rparr>"

definition sh_null :: SectionHeader where
  "sh_null = \<lparr>sh_name = 0, sh_typ = 0, sh_flags = 0, sh_addr = 0, sh_offset = 0,
     sh_size = 0, sh_link = 0, sh_info = 0, sh_addralign = 1, sh_entsize = 0\<rparr>"

definition sh_rodata :: "nat \<Rightarrow> SectionHeader" where
  "sh_rodata n = \<lparr>sh_name = 1, sh_typ = 1, sh_flags = 2, sh_addr = 0, sh_offset = 4096,
     sh_size = n, sh_link = 0, sh_info = 0, sh_addralign = 1, sh_entsize = 0\<rparr>"

definition sh_shstrtab :: SectionHeader where
  "sh_shstrtab = \<lparr>sh_name = 9, sh_typ = 3, sh_flags = 0, sh_addr = 0, sh_offset = 256,
     sh_size = 19, sh_link = 0, sh_info = 0, sh_addralign = 1, sh_entsize = 0\<rparr>"




definition marker :: "bytes \<Rightarrow> bytes \<Rightarrow> bytes" where
  "marker v1 v2 = ''QtWebEngine/'' @ v1 @ '' Chrome/'' @ v2"

definition occurs_at :: "bytes \<Rightarrow> nat \<Rightarrow> bytes \<Rightarrow> bytes \<Rightarrow> bool" where
  "occurs_at region i v1 v2 \<longleftrightarrow>
     v1 \<noteq> [] \<and> v2 \<noteq> [] \<and> set v1 \<subseteq> set version_chars \<and> set v2 \<subseteq> set version_chars
     \<and> take (length (marker v1 v2)) (drop i region) = marker v1 v2"

abbreviation (input) vchar :: "char \<Rightarrow> bool" where
  "vchar \<equiv> \<lambda>c. c \<in> set version_chars"

text \<open>A platform on which the sixth call on the file object raises \<^verbatim>\<open>OSError\<close>.\<close>

definition flaky_platform :: platform where
  "flaky_platform = \<lparr>faulty = (\<lambda>n. n = 5), granularity = 4096\<rparr>"

section \<open>Properties\<close>

subsection \<open>Auxiliary facts\<close>

lemma bytes_split_takeWhile: "\<exists>ps. bytes_split sep s = takeWhile (\<lambda>c. c \<noteq> sep) s # ps"
  by (induction s) (auto split: list.splits)

lemma section_name_eq: "section_name st n = Inr (takeWhile (\<lambda>c. c \<noteq> NUL) (drop n st))"
  using bytes_split_takeWhile [of NUL "drop n st"]
  by (auto simp: section_name_def item0_def)

lemma unpack_calls: "calls (snd (unpack env fmt f)) = calls f @ [Read (calcsize fmt)]"
  by (simp add: unpack_def f_read_def Let_def split: sum.splits)

lemma unpack_content: "content (snd (unpack env fmt f)) = content f"
  by (simp add: unpack_def f_read_def Let_def split: sum.splits)

lemma unpack_fst:
  "fst (unpack env fmt f) =
     (if faulty env (length (calls f)) then Inl (ParseError (Cause OSError))
      else if length (content f) - pos f < calcsize fmt then Inl (ParseError (Cause StructError))
      else Inr (unpack_fields fmt (take (calcsize fmt) (drop (pos f) (content f)))))"
  by (auto simp: unpack_def f_read_def Let_def struct_unpack_def split: sum.splits)

lemma SH_parse_calls:
  "calls (snd (SectionHeader_parse env b f)) = calls f @ [Read (calcsize (SectionHeader_FORMATS b))]"
  using unpack_calls [of env "SectionHeader_FORMATS b" f]
  by (cases "unpack env (SectionHeader_FORMATS b) f")
     (auto simp: SectionHeader_parse_def split: sum.splits)

lemma SH_parse_content: "content (snd (SectionHeader_parse env b f)) = content f"
  using unpack_content [of env "SectionHeader_FORMATS b" f]
  by (cases "unpack env (SectionHeader_FORMATS b) f")
     (auto simp: SectionHeader_parse_def split: sum.splits)

lemma SH_parse_fst:
  "fst (SectionHeader_parse env b f) =
     (if faulty env (length (calls f)) then Inl (ParseError (Cause OSError))
      else if length (content f) - pos f < calcsize (SectionHeader_FORMATS b)
        then Inl (ParseError (Cause StructError))
      else SectionHeader_make (unpack_fields (SectionHeader_FORMATS b)
             (take (calcsize (SectionHeader_FORMATS b)) (drop (pos f) (content f)))))"
  using unpack_fst [of env "SectionHeader_FORMATS b" f]
  by (cases "unpack env (SectionHeader_FORMATS b) f")
     (auto simp: SectionHeader_parse_def split: sum.splits if_splits)

lemma SH_parse_entry:
  assumes "reliable env" "pos f = shoff h + j * shentsize h"
  shows "fst (SectionHeader_parse env b f) = entry env b h (content f) j"
  using assms by (simp add: SH_parse_fst entry_def reliable_def)


lemma scan_step:
  assumes rel: "reliable env" and lt: "m < shnum h"
  shows "\<exists>f'. content f' = content f \<and> calls f' = calls f @ visits b h [m] \<and>
     scan_sections env b h st m f =
       (case entry env b h (content f) m of
          Inl e \<Rightarrow> (Inl e, f')
        | Inr sh \<Rightarrow> if name_of st sh = rodata then (Inr sh, f')
                    else scan_sections env b h st (Suc m) f')"
proof -
  define f1 where "f1 = f\<lparr>calls := calls f @ [Seek (shoff h + m * shentsize h)],
    pos := shoff h + m * shentsize h\<rparr>"
  have seek: "f_seek env (shoff h + m * shentsize h) f = (Inr (shoff h + m * shentsize h), f1)"
    using rel by (simp add: f_seek_def f1_def reliable_def Let_def)
  obtain r f2 where p: "SectionHeader_parse env b f1 = (r, f2)"
    by (cases "SectionHeader_parse env b f1")
  have r: "r = entry env b h (content f) m"
    using SH_parse_entry [OF rel, of f1 h m b] p by (simp add: f1_def)
  have c: "content f2 = content f"
    using SH_parse_content [of env b f1] p by (simp add: f1_def)
  have k: "calls f2 = calls f @ visits b h [m]"
    using SH_parse_calls [of env b f1] p by (simp add: f1_def visits_def)
  have "scan_sections env b h st m f =
       (case entry env b h (content f) m of
          Inl e \<Rightarrow> (Inl e, f2)
        | Inr sh \<Rightarrow> if name_of st sh = rodata then (Inr sh, f2)
                    else scan_sections env b h st (Suc m) f2)"
    using lt
    by (subst scan_sections.simps)
       (simp add: seek p r [symmetric] section_name_eq name_of_def split: sum.splits)
  with c k show ?thesis by blast
qed

lemma visits_append: "visits b h (xs @ ys) = visits b h xs @ visits b h ys"
  by (simp add: visits_def)

lemma scan_skip:
  assumes rel: "reliable env"
    and le: "i \<le> m" and m: "m \<le> shnum h"
    and skip: "\<forall>j. i \<le> j \<and> j < m \<longrightarrow>
       (\<exists>sh. entry env b h (content f) j = Inr sh \<and> name_of st sh \<noteq> rodata)"
  shows "\<exists>f'. content f' = content f \<and> calls f' = calls f @ visits b h [i..<m] \<and>
     scan_sections env b h st i f = scan_sections env b h st m f'"
  using le m skip
proof (induction m rule: dec_induct)
  case base
  show ?case by (rule exI [of _ f]) (simp add: visits_def)
next
  case (step n)
  from step obtain f' where f': "content f' = content f"
    "calls f' = calls f @ visits b h [i..<n]"
    "scan_sections env b h st i f = scan_sections env b h st n f'"
    by auto
  from step.prems step.hyps obtain sh where sh: "entry env b h (content f) n = Inr sh"
    "name_of st sh \<noteq> rodata"
    by auto
  from step.prems have "n < shnum h" by simp
  from scan_step [OF rel this, of f' b st] obtain f'' where f'': "content f'' = content f'"
    "calls f'' = calls f' @ visits b h [n]"
    "scan_sections env b h st n f' = scan_sections env b h st (Suc n) f''"
    using sh f'(1) by auto
  show ?case
    by (rule exI [of _ f'']) (simp add: f' f'' visits_append step.hyps)
qed

lemma get_rodata_header_split:
  "get_rodata_header env f =
     (case read_headers env f of
        (Inl e, f') \<Rightarrow> (Inl e, f')
      | (Inr (b, h, st), f') \<Rightarrow> scan_sections env b h st 0 f')"
  by (simp add: get_rodata_header_def read_headers_def split: prod.splits sum.splits)

lemma unpack_eq:
  "\<not> faulty env (length (calls f)) \<Longrightarrow>
   unpack env fmt f =
     (if length (content f) - pos f < calcsize fmt then Inl (ParseError (Cause StructError))
      else Inr (unpack_fields fmt (take (calcsize fmt) (drop (pos f) (content f)))),
      f\<lparr>calls := calls f @ [Read (calcsize fmt)],
        pos := pos f + min (calcsize fmt) (length (content f) - pos f)\<rparr>)"
  by (auto simp: unpack_def f_read_def Let_def struct_unpack_def min_def)

lemma nth_as_le_uint: "i < length d \<Longrightarrow> le_uint (take (Suc 0) (drop i d)) = of_char (d ! i)"
  by (simp add: take_Suc_conv_app_nth Cons_nth_drop_Suc [symmetric])

lemma unpack_fields_Ident:
  "length d = 16 \<Longrightarrow> unpack_fields Ident_FORMAT d =
     [VBytes (take 4 d), VInt (of_char (d ! 4)), VInt (of_char (d ! 5)), VInt (of_char (d ! 6)),
      VInt (of_char (d ! 7)), VInt (of_char (d ! 8))]"
  by (simp add: Ident_FORMAT_def nth_as_le_uint)

lemma Ident_parse_eq:
  assumes "\<not> faulty env (length (calls f))"
  shows "Ident_parse env f =
     (let d = take 16 (drop (pos f) (content f)) in
      (if length d < 16 then Inl (ParseError (Cause StructError))
       else if of_char (d ! 4) \<noteq> (1::nat) \<and> of_char (d ! 4) \<noteq> (2::nat)
         then Inl (ParseError (InvalidBitness (of_char (d ! 4))))
       else if of_char (d ! 5) \<noteq> (1::nat) \<and> of_char (d ! 5) \<noteq> (2::nat)
         then Inl (ParseError (InvalidEndianness (of_char (d ! 5))))
       else Inr \<lparr>magic = take 4 d,
                 klass = (if of_char (d ! 4) = (1::nat) then x32 else x64),
                 data = (if of_char (d ! 5) = (1::nat) then little else big),
                 version = of_char (d ! 6), osabi = of_char (d ! 7),
                 abiversion = of_char (d ! 8)\<rparr>),
      f\<lparr>calls := calls f @ [Read 16],
        pos := pos f + min 16 (length (content f) - pos f)\<rparr>)"
proof -
  have sz: "calcsize Ident_FORMAT = 16" by (simp add: Ident_FORMAT_def)
  show ?thesis
  proof (cases "length (content f) - pos f < 16")
    case True
    then show ?thesis
      using assms by (simp add: Ident_parse_def unpack_eq sz Let_def)
  next
    case False
    then have len: "length (take 16 (drop (pos f) (content f))) = 16" by simp
    show ?thesis
      using assms False
      by (simp add: Ident_parse_def unpack_eq sz Let_def unpack_fields_Ident [OF len]
          Bitness_of_def Endianness_of_def del: nth_take)
  qed
qed

lemma f_seek_reliable:
  "reliable env \<Longrightarrow> f_seek env off f = (Inr off, f\<lparr>calls := calls f @ [Seek off], pos := off\<rparr>)"
  by (simp add: f_seek_def reliable_def Let_def)

lemma f_read_reliable:
  "reliable env \<Longrightarrow> f_read env n f =
     (Inr (take n (drop (pos f) (content f))),
      f\<lparr>calls := calls f @ [Read n],
        pos := pos f + length (take n (drop (pos f) (content f)))\<rparr>)"
  by (simp add: f_read_def reliable_def Let_def)

lemma Ident_parse_calls: "calls (snd (Ident_parse env f)) = calls f @ [Read 16]"
proof -
  have sz: "calcsize Ident_FORMAT = 16" by (simp add: Ident_FORMAT_def)
  obtain r f' where u: "unpack env Ident_FORMAT f = (r, f')"
    by (cases "unpack env Ident_FORMAT f")
  with unpack_calls [of env Ident_FORMAT f] have c: "calls f' = calls f @ [Read 16]"
    by (simp add: sz)
  have "snd (Ident_parse env f) = f'"
    by (simp add: Ident_parse_def u split: sum.splits list.splits val.splits)
  with c show ?thesis by simp
qed

lemma Header_parse_eq:
  "\<not> faulty env (length (calls f)) \<Longrightarrow>
   Header_parse env b f =
     (if length (content f) - pos f < calcsize (Header_FORMATS b)
        then Inl (ParseError (Cause StructError))
      else Header_make (unpack_fields (Header_FORMATS b)
             (take (calcsize (Header_FORMATS b)) (drop (pos f) (content f)))),
      f\<lparr>calls := calls f @ [Read (calcsize (Header_FORMATS b))],
        pos := pos f + min (calcsize (Header_FORMATS b)) (length (content f) - pos f)\<rparr>)"
  by (simp add: Header_parse_def unpack_eq)

lemma SectionHeader_parse_eq:
  "\<not> faulty env (length (calls f)) \<Longrightarrow>
   SectionHeader_parse env b f =
     (if length (content f) - pos f < calcsize (SectionHeader_FORMATS b)
        then Inl (ParseError (Cause StructError))
      else SectionHeader_make (unpack_fields (SectionHeader_FORMATS b)
             (take (calcsize (SectionHeader_FORMATS b)) (drop (pos f) (content f)))),
      f\<lparr>calls := calls f @ [Read (calcsize (SectionHeader_FORMATS b))],
        pos := pos f + min (calcsize (SectionHeader_FORMATS b)) (length (content f) - pos f)\<rparr>)"
  by (simp add: SectionHeader_parse_def unpack_eq)

lemma ident_failure:
  assumes "\<not> faulty env (length (calls f))"
    and "ident_violation (take 16 (drop (pos f) (content f))) = Some m"
  shows "fst (get_rodata_header env f) = Inl (ParseError m)
     \<and> calls (snd (get_rodata_header env f)) = calls f @ [Read 16]"
  using assms
  by (auto simp: get_rodata_header_def Ident_parse_eq ident_violation_def Let_def
      split: if_splits simp del: nth_take)

lemma sound_platform_reliable: "reliable sound_platform"
  by (simp add: reliable_def sound_platform_def)

lemma ident_block_length: "length m = 4 \<Longrightarrow> length (ident_block m k d v) = 16"
  by (simp add: ident_block_def)

subsection \<open>Name resolution\<close>

text \<open>
  Claim C10. For every string table and every name offset, also one at or past the end of
  the table, the name resolution of the loop returns a byte string and raises nothing: the
  bytes from the offset up to the first null byte, all of them bytes of the table, and the
  empty string when the offset is at or past the end.
\<close>

theorem section_name_total:
  "section_name string_table n = Inr (takeWhile (\<lambda>c. c \<noteq> NUL) (drop n string_table))
   \<and> set (takeWhile (\<lambda>c. c \<noteq> NUL) (drop n string_table)) \<subseteq> set string_table
   \<and> section_name string_table (length string_table + k) = Inr []"
proof -
  have "set (takeWhile (\<lambda>c. c \<noteq> NUL) (drop n string_table)) \<subseteq> set (drop n string_table)"
    by (auto dest: set_takeWhileD)
  also have "\<dots> \<subseteq> set string_table"
    by (rule set_drop_subset)
  finally show ?thesis
    by (simp add: section_name_eq)
qed

subsection \<open>The identification block\<close>

text \<open>
  Claim C4, as the code has it. When the read of the identification block does not fail,
  the first violated condition in this order determines the failure: the read is short,
  the class is not one of the two values, the byte order is not one of the two values, the
  magic is not the signature, the byte order is big-endian, the version is not 1. The
  only call on the file is then the read of 16 bytes.
\<close>

theorem ident_validation_order:
  assumes "\<not> faulty env (length (calls f))"
    and "ident_violation (take 16 (drop (pos f) (content f))) = Some m"
  shows "fst (get_rodata_header env f) = Inl (ParseError m)
     \<and> calls (snd (get_rodata_header env f)) = calls f @ [Read 16]"
  using assms by (rule ident_failure)

theorem ident_validation_order_witness:
  "\<not> faulty sound_platform (length (calls (open_rb (ident_block ELF_MAGIC 2 2 1))))
   \<and> ident_violation (take 16 (drop (pos (open_rb (ident_block ELF_MAGIC 2 2 1)))
        (content (open_rb (ident_block ELF_MAGIC 2 2 1))))) = Some BigEndianUnsupported
   \<and> fst (get_rodata_header sound_platform (open_rb (ident_block ELF_MAGIC 2 2 1)))
       = Inl (ParseError BigEndianUnsupported)
   \<and> fst (get_rodata_header sound_platform (open_rb (ident_block ELF_MAGIC 2 9 1)))
       = Inl (ParseError (InvalidEndianness 9))
   \<and> fst (get_rodata_header sound_platform (open_rb (ident_block ELF_MAGIC 2 1 3)))
       = Inl (ParseError (UnsupportedVersion 3))
   \<and> fst (get_rodata_header sound_platform (open_rb (ident_block ''ELF!'' 2 1 1)))
       = Inl (ParseError (InvalidMagic ''ELF!''))
   \<and> fst (get_rodata_header sound_platform (open_rb ''ELF'')) = Inl (ParseError (Cause StructError))"
proof -
  have nf: "\<And>d. \<not> faulty sound_platform (length (calls (open_rb d)))"
    by (simp add: sound_platform_def)
  have t: "\<And>m k d v. length m = 4 \<Longrightarrow>
    take 16 (drop (pos (open_rb (ident_block m k d v))) (content (open_rb (ident_block m k d v))))
      = ident_block m k d v"
    by (simp add: open_rb_def ident_block_length)
  have len: "length ELF_MAGIC = 4" "length ''ELF!'' = 4"
    by (simp_all add: ELF_MAGIC_def)
  have v1: "ident_violation (ident_block ELF_MAGIC 2 2 1) = Some BigEndianUnsupported"
    by (simp add: ident_violation_def ident_block_def ELF_MAGIC_def NUL_def)
  have v2: "ident_violation (ident_block ELF_MAGIC 2 9 1) = Some (InvalidEndianness 9)"
    by (simp add: ident_violation_def ident_block_def ELF_MAGIC_def NUL_def)
  have v3: "ident_violation (ident_block ELF_MAGIC 2 1 3) = Some (UnsupportedVersion 3)"
    by (simp add: ident_violation_def ident_block_def ELF_MAGIC_def NUL_def)
  have v4: "ident_violation (ident_block ''ELF!'' 2 1 1) = Some (InvalidMagic ''ELF!'')"
    by (simp add: ident_violation_def ident_block_def ELF_MAGIC_def NUL_def)
  have v5: "ident_violation (take 16 (drop (pos (open_rb ''ELF'')) (content (open_rb ''ELF''))))
      = Some (Cause StructError)"
    by (simp add: open_rb_def ident_violation_def)
  show ?thesis
    using ident_validation_order [OF nf, of "ident_block ELF_MAGIC 2 2 1" BigEndianUnsupported]
      ident_validation_order [OF nf, of "ident_block ELF_MAGIC 2 9 1" "InvalidEndianness 9"]
      ident_validation_order [OF nf, of "ident_block ELF_MAGIC 2 1 3" "UnsupportedVersion 3"]
      ident_validation_order [OF nf, of "ident_block ''ELF!'' 2 1 1" "InvalidMagic ''ELF!''"]
      ident_validation_order [OF nf v5]
    by (simp only: t [OF len(1)] t [OF len(2)] v1 v2 v3 v4 nf simp_thms)
qed

text \<open>The order of the claim puts the magic before the class. On a block whose magic is
  wrong and whose class byte is 7, the failure is the one of the class.\<close>

theorem ident_validation_order_counterexample:
  "take 4 (ident_block ''ELF!'' 7 1 1) \<noteq> ELF_MAGIC
   \<and> fst (get_rodata_header sound_platform (open_rb (ident_block ''ELF!'' 7 1 1)))
       = Inl (ParseError (InvalidBitness 7))
   \<and> fst (get_rodata_header sound_platform (open_rb (ident_block ''ELF!'' 7 1 1)))
       \<noteq> Inl (ParseError (InvalidMagic ''ELF!''))"
proof -
  have nf: "\<not> faulty sound_platform (length (calls (open_rb (ident_block ''ELF!'' 7 1 1))))"
    by (simp add: sound_platform_def)
  have t: "take 16 (drop (pos (open_rb (ident_block ''ELF!'' 7 1 1)))
        (content (open_rb (ident_block ''ELF!'' 7 1 1)))) = ident_block ''ELF!'' 7 1 1"
    by (simp add: open_rb_def ident_block_length)
  have v: "ident_violation (ident_block ''ELF!'' 7 1 1) = Some (InvalidBitness 7)"
    by (simp add: ident_violation_def ident_block_def ELF_MAGIC_def NUL_def)
  have m: "take 4 (ident_block ''ELF!'' 7 1 1) \<noteq> ELF_MAGIC"
    by (simp add: ident_block_def ELF_MAGIC_def)
  from ident_failure [OF nf, of "InvalidBitness 7"] t v m show ?thesis by simp
qed

text \<open>
  Claim C9. When the identification block decodes and its byte order is big-endian, the
  parse fails with a \<^verbatim>\<open>ParseError\<close> of the format (the magic, when it is wrong too, and
  else the byte order), and the read of the 16 bytes of the block is the only call on the
  file: no header and no section header is read.
\<close>

theorem big_endian_rejected:
  assumes "Ident_parse env f = (Inr ident, f1)" and "data ident = big"
  shows "get_rodata_header env f =
       (Inl (ParseError (if magic ident = ELF_MAGIC then BigEndianUnsupported
                         else InvalidMagic (magic ident))), f1)
     \<and> calls f1 = calls f @ [Read 16]"
  using assms Ident_parse_calls [of env f]
  by (simp add: get_rodata_header_def)

theorem big_endian_rejected_witness:
  "Ident_parse sound_platform (open_rb (ident_block ELF_MAGIC 2 2 1)) =
     (Inr \<lparr>magic = ELF_MAGIC, klass = x64, data = big, version = 1, osabi = 0,
           abiversion = 0\<rparr>,
      \<lparr>content = ident_block ELF_MAGIC 2 2 1, pos = 16, calls = [Read 16]\<rparr>)
   \<and> data \<lparr>magic = ELF_MAGIC, klass = x64, data = big, version = 1, osabi = 0,
           abiversion = 0\<rparr> = big
   \<and> get_rodata_header sound_platform (open_rb (ident_block ELF_MAGIC 2 2 1)) =
       (Inl (ParseError BigEndianUnsupported),
        \<lparr>content = ident_block ELF_MAGIC 2 2 1, pos = 16, calls = [Read 16]\<rparr>)"
proof -
  have nf: "\<not> faulty sound_platform (length (calls (open_rb (ident_block ELF_MAGIC 2 2 1))))"
    by (simp add: sound_platform_def)
  have len: "length (ident_block ELF_MAGIC 2 2 1) = 16"
    by (simp add: ident_block_length ELF_MAGIC_def)
  have i: "Ident_parse sound_platform (open_rb (ident_block ELF_MAGIC 2 2 1)) =
     (Inr \<lparr>magic = ELF_MAGIC, klass = x64, data = big, version = 1, osabi = 0,
           abiversion = 0\<rparr>,
      \<lparr>content = ident_block ELF_MAGIC 2 2 1, pos = 16, calls = [Read 16]\<rparr>)"
    unfolding Ident_parse_eq [OF nf]
    by (simp add: open_rb_def len) (simp add: ident_block_def ELF_MAGIC_def NUL_def)
  from big_endian_rejected [OF i] i show ?thesis by simp
qed

lemma lens: "length elf_head = 64" "length sec_null = 64" "length sec_rodata53 = 64"
  "length sec_rodata46 = 64" "length sec_shstrtab = 64" "length strtab = 19"
  by (simp_all add: elf_head_def sec_null_def sec_rodata53_def sec_rodata46_def
      sec_shstrtab_def strtab_def)

lemma slices:
  assumes "length s = 64"
  shows "take 16 (elf_image s r) = take 16 elf_head"
    "take 48 (drop 16 (elf_image s r)) = drop 16 elf_head"
    "take 64 (drop 64 (elf_image s r)) = sec_null"
    "take 64 (drop 128 (elf_image s r)) = s"
    "take 64 (drop 192 (elf_image s r)) = sec_shstrtab"
    "take 19 (drop 256 (elf_image s r)) = strtab"
    "drop 4096 (elf_image s r) = r"
    "length (elf_image s r) = 4096 + length r"
  using assms by (simp_all add: elf_image_def lens)

lemma ident_ok: "Ident_parse sound_platform (open_rb (elf_image s r)) =
   (Inr \<lparr>magic = ELF_MAGIC, klass = x64, data = little, version = 1, osabi = 0,
         abiversion = 0\<rparr>,
    \<lparr>content = elf_image s r, pos = 16, calls = [Read 16]\<rparr>)"
  if "length s = 64"
proof -
  have nf: "\<not> faulty sound_platform (length (calls (open_rb (elf_image s r))))"
    by (simp add: sound_platform_def)
  show ?thesis
    unfolding Ident_parse_eq [OF nf]
    by (simp add: open_rb_def slices [OF that]) (simp add: elf_head_def ELF_MAGIC_def)
qed

lemma header_ok: "Header_parse sound_platform x64
     \<lparr>content = elf_image s r, pos = 16, calls = [Read 16]\<rparr> =
   (Inr hdr3, \<lparr>content = elf_image s r, pos = 64, calls = [Read 16, Read 48]\<rparr>)"
  if "length s = 64"
proof -
  have nf: "\<And>n. \<not> faulty sound_platform n"
    by (simp add: sound_platform_def)
  show ?thesis
    unfolding Header_parse_eq [OF nf]
    by (simp add: slices [OF that]) (simp add: Header_make_def elf_head_def hdr3_def)
qed

lemma shstr_ok: "SectionHeader_parse sound_platform x64
     \<lparr>content = elf_image s r, pos = 192, calls = cs\<rparr> =
   (Inr \<lparr>sh_name = 9, sh_typ = 3, sh_flags = 0, sh_addr = 0, sh_offset = 256,
        sh_size = 19, sh_link = 0, sh_info = 0, sh_addralign = 1, sh_entsize = 0\<rparr>,
    \<lparr>content = elf_image s r, pos = 256, calls = cs @ [Read 64]\<rparr>)"
  if "length s = 64"
proof -
  have nf: "\<And>n. \<not> faulty sound_platform n"
    by (simp add: sound_platform_def)
  show ?thesis
    unfolding SectionHeader_parse_eq [OF nf]
    by (simp add: slices [OF that]) (simp add: SectionHeader_make_def sec_shstrtab_def)
qed

lemma headers_ok: "read_headers sound_platform (open_rb (elf_image s r)) =
   (Inr (x64, hdr3, strtab),
    \<lparr>content = elf_image s r, pos = 275,
     calls = [Read 16, Read 48, Seek 192, Read 64, Seek 256, Read 19]\<rparr>)"
  if "length s = 64"
proof -
  have h3: "shoff hdr3 + shstrndx hdr3 * shentsize hdr3 = 192"
    by (simp add: hdr3_def)
  show ?thesis
    by (simp add: read_headers_def ident_ok [OF that] header_ok [OF that] h3
        f_seek_reliable f_read_reliable sound_platform_reliable shstr_ok [OF that]
        slices [OF that] lens)
qed

lemma f_seek_contentD: "f_seek env off f = (r, f') \<Longrightarrow> content f' = content f"
  by (auto simp: f_seek_def Let_def split: if_splits)

lemma f_read_contentD: "f_read env n f = (r, f') \<Longrightarrow> content f' = content f"
  by (auto simp: f_read_def Let_def split: if_splits)

lemma SH_parse_contentD: "SectionHeader_parse env b f = (r, f') \<Longrightarrow> content f' = content f"
  using SH_parse_content [of env b f] by simp

lemma Header_parse_contentD: "Header_parse env b f = (r, f') \<Longrightarrow> content f' = content f"
  using unpack_content [of env "Header_FORMATS b" f]
  by (cases "unpack env (Header_FORMATS b) f") (auto simp: Header_parse_def split: sum.splits)

lemma Ident_parse_contentD: "Ident_parse env f = (r, f') \<Longrightarrow> content f' = content f"
proof -
  obtain r0 f0 where u: "unpack env Ident_FORMAT f = (r0, f0)"
    by (cases "unpack env Ident_FORMAT f")
  with unpack_content [of env Ident_FORMAT f] have c: "content f0 = content f"
    by simp
  have "snd (Ident_parse env f) = f0"
    by (simp add: Ident_parse_def u split: sum.splits list.splits val.splits)
  with c show "Ident_parse env f = (r, f') \<Longrightarrow> content f' = content f" by simp
qed

lemma read_headers_contentD: "read_headers env f = (r, f') \<Longrightarrow> content f' = content f"
  unfolding read_headers_def
  by (auto split: prod.splits sum.splits if_splits
      dest!: Ident_parse_contentD Header_parse_contentD f_seek_contentD SH_parse_contentD
        f_read_contentD)

lemma scan_content: "content (snd (scan_sections env b h st i f)) = content f"
proof (induction env b h st i f rule: scan_sections.induct)
  case (1 env b h st i f)
  show ?case
    apply (subst scan_sections.simps)
    using "1.IH"
    by (auto split: prod.splits sum.splits dest!: f_seek_contentD SH_parse_contentD)
qed

lemma get_rodata_header_content: "content (snd (get_rodata_header env f)) = content f"
  unfolding get_rodata_header_split
  by (auto split: prod.splits sum.splits simp: scan_content dest!: read_headers_contentD)

lemma scan_first_match:
  assumes rel: "reliable env" and k: "k < shnum h"
    and skip: "\<forall>j<k. \<exists>sh. entry env b h (content f) j = Inr sh \<and> name_of st sh \<noteq> rodata"
    and hit: "entry env b h (content f) k = Inr shk" "name_of st shk = rodata"
  shows "fst (scan_sections env b h st 0 f) = Inr shk
     \<and> calls (snd (scan_sections env b h st 0 f)) = calls f @ visits b h [0..<Suc k]"
proof -
  from scan_skip [OF rel, of 0 k h b f st] k skip obtain f' where f':
    "content f' = content f" "calls f' = calls f @ visits b h [0..<k]"
    "scan_sections env b h st 0 f = scan_sections env b h st k f'"
    by auto
  from scan_step [OF rel k, of f' b st] hit f'(1) obtain f'' where
    "calls f'' = calls f' @ visits b h [k]" "scan_sections env b h st k f' = (Inr shk, f'')"
    by auto
  with f' show ?thesis by (simp add: visits_append)
qed



lemma get_rodata_header_scan:
  assumes "read_headers env (open_rb file) = (Inr (b, h, st), f0)"
  shows "get_rodata_header env (open_rb file) = scan_sections env b h st 0 f0"
    and "content f0 = file"
  using assms read_headers_contentD [OF assms]
  by (simp_all add: get_rodata_header_split open_rb_def)

lemma entry_image:
  assumes "length s = 64"
  shows "entry sound_platform x64 hdr3 (elf_image s r) 0 = Inr sh_null"
    and "entry sound_platform x64 hdr3 (elf_image s r) 2 = Inr sh_shstrtab"
    and "entry sound_platform x64 hdr3 (elf_image sec_rodata53 r) 1 = Inr (sh_rodata 53)"
    and "entry sound_platform x64 hdr3 (elf_image sec_rodata46 r) 1 = Inr (sh_rodata 46)"
    and "entry sound_platform x64 hdr3 (elf_image sec_shstrtab r) 1 = Inr sh_shstrtab"
proof -
  have e: "\<And>s. length s = 64 \<Longrightarrow>
      entry sound_platform x64 hdr3 (elf_image s r) 0 =
        SectionHeader_make (unpack_fields (SectionHeader_FORMATS x64) sec_null)
      \<and> entry sound_platform x64 hdr3 (elf_image s r) 1 =
        SectionHeader_make (unpack_fields (SectionHeader_FORMATS x64) s)
      \<and> entry sound_platform x64 hdr3 (elf_image s r) 2 =
        SectionHeader_make (unpack_fields (SectionHeader_FORMATS x64) sec_shstrtab)"
    by (simp add: entry_def SH_parse_fst sound_platform_def hdr3_def slices
        del: unpack_fields.simps)
  have d: "SectionHeader_make (unpack_fields (SectionHeader_FORMATS x64) sec_null) = Inr sh_null"
    "SectionHeader_make (unpack_fields (SectionHeader_FORMATS x64) sec_rodata53)
       = Inr (sh_rodata 53)"
    "SectionHeader_make (unpack_fields (SectionHeader_FORMATS x64) sec_rodata46)
       = Inr (sh_rodata 46)"
    "SectionHeader_make (unpack_fields (SectionHeader_FORMATS x64) sec_shstrtab)
       = Inr sh_shstrtab"
    by (simp_all add: SectionHeader_make_def sec_null_def sec_rodata53_def sec_rodata46_def
        sec_shstrtab_def sh_null_def sh_rodata_def sh_shstrtab_def)
  show "entry sound_platform x64 hdr3 (elf_image s r) 0 = Inr sh_null"
    and "entry sound_platform x64 hdr3 (elf_image s r) 2 = Inr sh_shstrtab"
    and "entry sound_platform x64 hdr3 (elf_image sec_rodata53 r) 1 = Inr (sh_rodata 53)"
    and "entry sound_platform x64 hdr3 (elf_image sec_rodata46 r) 1 = Inr (sh_rodata 46)"
    and "entry sound_platform x64 hdr3 (elf_image sec_shstrtab r) 1 = Inr sh_shstrtab"
    using e [OF assms] e [of sec_rodata53] e [of sec_rodata46] e [of sec_shstrtab]
    by (simp_all only: d lens)
qed


lemma names:
  "name_of strtab sh_null = []"
  "name_of strtab (sh_rodata n) = rodata"
  "name_of strtab sh_shstrtab = ''.shstrtab''"
  by (simp_all add: name_of_def strtab_def sh_null_def sh_rodata_def sh_shstrtab_def NUL_def
      rodata_def)

























lemma greedy_all: "greedy (\<lambda>s. Some []) s n = (if n = 0 then None else Some [take n s])"
  by (cases n) simp_all

lemma greedy_last:
  assumes "\<forall>m. 0 < m \<and> m < n \<longrightarrow> k (drop m s) = None"
  shows "greedy k s n =
     (if n = 0 then None
      else case k (drop n s) of Some gs \<Rightarrow> Some (take n s # gs) | None \<Rightarrow> None)"
  using assms
proof (induction n)
  case 0
  show ?case by simp
next
  case (Suc n)
  then have "greedy k s n = (if n = 0 then None else greedy k s n)" by simp
  show ?case
  proof (cases "k (drop (Suc n) s)")
    case (Some gs)
    then show ?thesis by simp
  next
    case None
    have "greedy k s n = None"
    proof (cases n)
      case 0
      then show ?thesis by simp
    next
      case (Suc m)
      with Suc.prems have "k (drop n s) = None" by simp
      moreover have "greedy k s n =
        (if n = 0 then None
         else case k (drop n s) of Some gs \<Rightarrow> Some (take n s # gs) | None \<Rightarrow> None)"
        using Suc.prems by (intro Suc.IH) simp
      ultimately show ?thesis by simp
    qed
    with None show ?thesis by simp
  qed
qed

lemma space_not_vchar: "CHR '' '' \<notin> set version_chars"
  by (simp add: version_chars_def)

lemma chrome_after_vchar:
  assumes "m < length (takeWhile vchar s)"
  shows "take 8 (drop m s) \<noteq> '' Chrome/''"
proof -
  have m: "m < length s"
    using assms length_takeWhile_le [of vchar s] by simp
  have "s ! m \<in> set version_chars"
    using assms by (metis nth_mem set_takeWhileD takeWhile_nth)
  then have "s ! m \<noteq> CHR '' ''"
    using space_not_vchar by auto
  moreover have "drop m s = s ! m # drop (Suc m) s"
    using m by (simp add: Cons_nth_drop_Suc)
  ultimately show ?thesis by simp
qed

lemma re_match_Lit:
  "re_match (Lit l # r) =
     (\<lambda>s. if take (length l) s = l then re_match r (drop (length l) s) else None)"
  by simp

lemma re_match_Group:
  "re_match (GroupPlus cls # r) =
     (\<lambda>s. greedy (re_match r) s (length (takeWhile (\<lambda>c. c \<in> set cls) s)))"
  by simp

lemma marker_lengths: "length ''QtWebEngine/'' = 12" "length '' Chrome/'' = 8"
  by simp_all

lemma re_match_VERSION_RE:
  "re_match VERSION_RE s =
     (let s1 = drop 12 s; v1 = takeWhile vchar s1; s2 = drop (length v1) s1;
          s3 = drop 8 s2; v2 = takeWhile vchar s3
      in if take 12 s = ''QtWebEngine/'' \<and> v1 \<noteq> [] \<and> take 8 s2 = '' Chrome/'' \<and> v2 \<noteq> []
         then Some [v1, v2] else None)"
proof -
  define k where "k = (\<lambda>t. if take 8 t = '' Chrome/''
     then greedy (\<lambda>s. Some []) (drop 8 t) (length (takeWhile vchar (drop 8 t))) else None)"
  define s1 where "s1 = drop 12 s"
  have m: "re_match VERSION_RE s =
     (if take 12 s = ''QtWebEngine/'' then greedy k s1 (length (takeWhile vchar s1)) else None)"
    by (simp only: VERSION_RE_def re_match_Lit re_match_Group marker_lengths
        re_match.simps(1) k_def s1_def)
  have "\<forall>m. 0 < m \<and> m < length (takeWhile vchar s1) \<longrightarrow> k (drop m s1) = None"
    using chrome_after_vchar [of _ s1] by (simp add: k_def)
  from greedy_last [OF this]
  have g: "greedy k s1 (length (takeWhile vchar s1)) =
     (if length (takeWhile vchar s1) = 0 then None
      else case k (drop (length (takeWhile vchar s1)) s1) of
             Some gs \<Rightarrow> Some (take (length (takeWhile vchar s1)) s1 # gs) | None \<Rightarrow> None)" .
  have t: "\<And>u. take (length (takeWhile vchar u)) u = takeWhile vchar u"
    by (rule takeWhile_eq_take [symmetric])
  show ?thesis
    unfolding m g
    by (simp add: k_def greedy_all s1_def Let_def t split: option.splits)
qed

lemma re_search_None:
  "re_search p s = None \<longleftrightarrow> (\<forall>i\<le>length s. re_match p (drop i s) = None)"
proof (induction s)
  case Nil
  show ?case by simp
next
  case (Cons c cs)
  have split: "\<And>P n. (\<forall>i\<le>Suc n. P i) = (P 0 \<and> (\<forall>j\<le>n. P (Suc j)))"
    by (metis Suc_le_mono le0 not0_implies_Suc)
  show ?case
    using Cons.IH by (simp add: split split: option.splits)
qed

lemma re_search_first:
  assumes "i \<le> length s" and "re_match p (drop i s) = Some gs"
    and "\<forall>j<i. re_match p (drop j s) = None"
  shows "re_search p s = Some gs"
  using assms
proof (induction s arbitrary: i)
  case Nil
  then show ?case by simp
next
  case (Cons c cs)
  show ?case
  proof (cases i)
    case 0
    with Cons.prems show ?thesis by simp
  next
    case (Suc i')
    with Cons.prems have "re_match p (c # cs) = None"
      by (metis drop0 zero_less_Suc)
    moreover have "re_search p cs = Some gs"
    proof (rule Cons.IH [of i'])
      show "i' \<le> length cs" using Cons.prems Suc by simp
      show "re_match p (drop i' cs) = Some gs" using Cons.prems Suc by simp
      show "\<forall>j<i'. re_match p (drop j cs) = None"
        using Cons.prems(3) Suc by (metis Suc_less_eq drop_Suc_Cons)
    qed
    ultimately show ?thesis by simp
  qed
qed

lemma takeWhile_version_prefix:
  assumes "set v \<subseteq> set version_chars"
  shows "takeWhile vchar (v @ CHR '' '' # r) = v"
proof -
  have "takeWhile vchar (v @ CHR '' '' # r) = v @ takeWhile vchar (CHR '' '' # r)"
    using assms by (intro takeWhile_append2) auto
  then show ?thesis using space_not_vchar by simp
qed

lemma occurs_at_match:
  assumes "occurs_at region i v1 v2"
  shows "re_match VERSION_RE (drop i region) =
      Some [v1, takeWhile vchar (drop (20 + length v1) (drop i region))]"
    and "take (length v2) (takeWhile vchar (drop (20 + length v1) (drop i region))) = v2"
    and "i < length region"
proof -
  define s where "s = drop i region"
  define rest where "rest = drop (length (marker v1 v2)) s"
  from assms have v: "v1 \<noteq> []" "v2 \<noteq> []" "set v1 \<subseteq> set version_chars"
    "set v2 \<subseteq> set version_chars" and t: "take (length (marker v1 v2)) s = marker v1 v2"
    by (simp_all add: occurs_at_def s_def)
  have "s = take (length (marker v1 v2)) s @ rest"
    by (simp add: rest_def)
  with t have s: "s = ''QtWebEngine/'' @ v1 @ '' Chrome/'' @ v2 @ rest"
    by (simp add: marker_def)
  have s1: "drop 12 s = v1 @ CHR '' '' # (''Chrome/'' @ v2 @ rest)"
    by (subst s) simp
  have tw1: "takeWhile vchar (drop 12 s) = v1"
    unfolding s1 by (rule takeWhile_version_prefix [OF v(3)])
  have s2: "drop (length v1) (drop 12 s) = '' Chrome/'' @ v2 @ rest"
    unfolding s1 by simp
  have s3: "drop 8 (drop (length v1) (drop 12 s)) = v2 @ rest"
    unfolding s2 by simp
  have tw2: "takeWhile vchar (v2 @ rest) = v2 @ takeWhile vchar rest"
    using v(4) by (intro takeWhile_append2) auto
  have d: "drop (20 + length v1) s = v2 @ rest"
    using s3 by (simp add: add.commute)
  have "re_match VERSION_RE s = Some [v1, takeWhile vchar (v2 @ rest)]"
    unfolding re_match_VERSION_RE
    by (simp only: Let_def tw1 s2 s3) (simp add: v tw2, subst s, simp)
  then show "re_match VERSION_RE (drop i region) =
      Some [v1, takeWhile vchar (drop (20 + length v1) (drop i region))]"
    by (simp add: d s_def [symmetric])
  show "take (length v2) (takeWhile vchar (drop (20 + length v1) (drop i region))) = v2"
    by (simp add: s_def [symmetric] d tw2)
  have "s \<noteq> []" by (subst s) simp
  then show "i < length region" by (simp add: s_def)
qed

lemma match_occurs_at:
  assumes "re_match VERSION_RE (drop i region) = Some gs"
  shows "\<exists>v1 v2. gs = [v1, v2] \<and> occurs_at region i v1 v2"
proof -
  define s where "s = drop i region"
  define v1 where "v1 = takeWhile vchar (drop 12 s)"
  define s2 where "s2 = drop (length v1) (drop 12 s)"
  define v2 where "v2 = takeWhile vchar (drop 8 s2)"
  from assms have m: "take 12 s = ''QtWebEngine/''" "v1 \<noteq> []" "take 8 s2 = '' Chrome/''"
    "v2 \<noteq> []" "gs = [v1, v2]"
    unfolding re_match_VERSION_RE s_def [symmetric]
    by (auto simp: Let_def v1_def s2_def v2_def split: if_splits)
  have a: "s = ''QtWebEngine/'' @ drop 12 s"
    using append_take_drop_id [of 12 s] m(1) by simp
  have b: "drop 12 s = v1 @ s2"
    unfolding s2_def v1_def
    by (metis append_take_drop_id takeWhile_eq_take)
  have c: "s2 = '' Chrome/'' @ drop 8 s2"
    using append_take_drop_id [of 8 s2] m(3) by simp
  have d: "drop 8 s2 = v2 @ dropWhile vchar (drop 8 s2)"
    by (simp add: v2_def)
  have "s = marker v1 v2 @ dropWhile vchar (drop 8 s2)"
    unfolding marker_def
    by (subst a, subst b, subst c, subst d) simp
  then have "take (length (marker v1 v2)) s = marker v1 v2"
    by (metis append_eq_conv_conj)
  moreover have "set v1 \<subseteq> set version_chars" "set v2 \<subseteq> set version_chars"
    by (auto simp: v1_def v2_def dest: set_takeWhileD)
  ultimately have "occurs_at region i v1 v2"
    using m by (simp add: occurs_at_def s_def)
  with m(5) show ?thesis by blast
qed

lemma decode_ascii_version:
  assumes "set v \<subseteq> set version_chars"
  shows "decode_ascii v = Inr v"
proof -
  have "\<forall>c\<in>set version_chars. (of_char c :: nat) < 128"
    by (simp add: version_chars_def)
  with assms show ?thesis
    by (auto simp: decode_ascii_def list_all_iff)
qed

lemma find_versions_match:
  assumes "re_search VERSION_RE region = Some [v1, v2]"
    and "set v1 \<subseteq> set version_chars" "set v2 \<subseteq> set version_chars"
  shows "find_versions region = Inr \<lparr>webengine = v1, chromium = v2\<rparr>"
  using assms by (simp add: find_versions_def decode_ascii_version)

lemma find_versions_no_match:
  assumes "\<not> (\<exists>i v1 v2. occurs_at region i v1 v2)"
  shows "find_versions region = Inl (ParseError NoMatchInRodata)"
proof -
  have "\<forall>i\<le>length region. re_match VERSION_RE (drop i region) = None"
    using assms match_occurs_at [of i region for i] by (metis not_Some_eq)
  then have "re_search VERSION_RE region = None"
    by (simp add: re_search_None)
  then show ?thesis by (simp add: find_versions_def)
qed

lemma find_versions_leftmost:
  assumes occ: "occurs_at region i v1 v2"
    and first: "\<forall>j<i. \<forall>w1 w2. \<not> occurs_at region j w1 w2"
  shows "find_versions region =
      Inr \<lparr>webengine = v1,
           chromium = takeWhile vchar (drop (20 + length v1) (drop i region))\<rparr>"
    and "occurs_at region i v1 (takeWhile vchar (drop (20 + length v1) (drop i region)))"
    and "take (length v2) (takeWhile vchar (drop (20 + length v1) (drop i region))) = v2"
proof -
  define v2' where "v2' = takeWhile vchar (drop (20 + length v1) (drop i region))"
  note m = occurs_at_match [OF occ, folded v2'_def]
  have none: "\<forall>j<i. re_match VERSION_RE (drop j region) = None"
    using first match_occurs_at [of j region for j] by (metis not_Some_eq)
  have rs: "re_search VERSION_RE region = Some [v1, v2']"
    using re_search_first [of i region VERSION_RE "[v1, v2']"] m(1,3) none by simp
  from match_occurs_at [OF m(1)] have o: "occurs_at region i v1 v2'"
    by simp
  then have "set v1 \<subseteq> set version_chars" "set v2' \<subseteq> set version_chars"
    by (simp_all add: occurs_at_def)
  from find_versions_match [OF rs this]
  show "find_versions region =
      Inr \<lparr>webengine = v1,
           chromium = takeWhile vchar (drop (20 + length v1) (drop i region))\<rparr>"
    by (simp add: v2'_def)
  show "occurs_at region i v1 (takeWhile vchar (drop (20 + length v1) (drop i region)))"
    using o by (simp add: v2'_def)
  show "take (length v2) (takeWhile vchar (drop (20 + length v1) (drop i region))) = v2"
    using m(2) by (simp add: v2'_def)
qed

text \<open>
  Claim C7. When the region holds no occurrence of the marker (\<^verbatim>\<open>QtWebEngine/\<close>, a
  version, \<^verbatim>\<open> Chrome/\<close>, a version, each version one or more digits and periods), the
  search raises the \<^verbatim>\<open>ParseError\<close> of the missing match. When it holds one at the
  position \<open>i\<close> and none before, the search returns the versions of the occurrence at
  \<open>i\<close>: the first version, and the second one extended to the longest run of digits and
  periods that starts there.
\<close>

theorem version_search_leftmost:
  "(\<not> (\<exists>i v1 v2. occurs_at region i v1 v2) \<longrightarrow>
       find_versions region = Inl (ParseError NoMatchInRodata))
   \<and> (occurs_at region i v1 v2 \<and> \<not> (\<exists>j w1 w2. j < i \<and> occurs_at region j w1 w2) \<longrightarrow>
       (\<exists>v2'. find_versions region = Inr \<lparr>webengine = v1, chromium = v2'\<rparr>
          \<and> occurs_at region i v1 v2' \<and> take (length v2) v2' = v2))"
proof (intro conjI impI)
  assume "\<not> (\<exists>i v1 v2. occurs_at region i v1 v2)"
  then show "find_versions region = Inl (ParseError NoMatchInRodata)"
    by (rule find_versions_no_match)
next
  assume a: "occurs_at region i v1 v2 \<and> \<not> (\<exists>j w1 w2. j < i \<and> occurs_at region j w1 w2)"
  then have occ: "occurs_at region i v1 v2"
    and first: "\<forall>j<i. \<forall>w1 w2. \<not> occurs_at region j w1 w2"
    by blast+
  from find_versions_leftmost [OF occ first]
  show "\<exists>v2'. find_versions region = Inr \<lparr>webengine = v1, chromium = v2'\<rparr>
          \<and> occurs_at region i v1 v2' \<and> take (length v2) v2' = v2"
    by blast
qed

lemma occurs_at_prefix:
  assumes "occurs_at region i v1 v2"
  shows "take 12 (drop i region) = ''QtWebEngine/''"
proof -
  from assms have "take (length (marker v1 v2)) (drop i region) = marker v1 v2"
    by (simp add: occurs_at_def)
  then have "take 12 (take (length (marker v1 v2)) (drop i region)) = take 12 (marker v1 v2)"
    by simp
  then show ?thesis
    by (simp add: marker_def min_def)
qed

lemma region_ok_occurrence:
  "occurs_at region_ok 2 ''89.0.4389.90'' ''89.0.4389.90''"
  "\<not> (\<exists>j w1 w2. j < 2 \<and> occurs_at region_ok j w1 w2)"
proof -
  show "occurs_at region_ok 2 ''89.0.4389.90'' ''89.0.4389.90''"
    by (simp add: occurs_at_def region_ok_def marker_def version_chars_def)
  have "take 12 (drop 0 region_ok) \<noteq> ''QtWebEngine/''"
    "take 12 (drop 1 region_ok) \<noteq> ''QtWebEngine/''"
    by (simp_all add: region_ok_def)
  then show "\<not> (\<exists>j w1 w2. j < 2 \<and> occurs_at region_ok j w1 w2)"
    using occurs_at_prefix [of region_ok]
    by (metis One_nat_def less_2_cases)
qed

theorem version_search_leftmost_witness:
  "\<not> (\<exists>i v1 v2. occurs_at ''Qt5 5.15.2'' i v1 v2)
   \<and> find_versions ''Qt5 5.15.2'' = Inl (ParseError NoMatchInRodata)
   \<and> occurs_at region_ok 2 ''89.0.4389.90'' ''89.0.4389.90''
   \<and> \<not> (\<exists>j w1 w2. j < 2 \<and> occurs_at region_ok j w1 w2)
   \<and> find_versions region_ok = Inr \<lparr>webengine = ''89.0.4389.90'', chromium = ''89.0.4389.90''\<rparr>"
proof -
  have none: "\<not> (\<exists>i v1 v2. occurs_at ''Qt5 5.15.2'' i v1 v2)"
  proof
    assume "\<exists>i v1 v2. occurs_at ''Qt5 5.15.2'' i v1 v2"
    then obtain i v1 v2 where "occurs_at ''Qt5 5.15.2'' i v1 v2" by blast
    from occurs_at_prefix [OF this]
    have "length (take 12 (drop i ''Qt5 5.15.2'')) = length ''QtWebEngine/''"
      by simp
    then show False by simp
  qed
  from version_search_leftmost [of region_ok 2 "''89.0.4389.90''" "''89.0.4389.90''"]
    region_ok_occurrence
  obtain v2' where v: "find_versions region_ok = Inr \<lparr>webengine = ''89.0.4389.90'', chromium = v2'\<rparr>"
    "occurs_at region_ok 2 ''89.0.4389.90'' v2'"
    by blast
  have "find_versions region_ok = Inr \<lparr>webengine = ''89.0.4389.90'',
      chromium = takeWhile vchar (drop (20 + length ''89.0.4389.90'') (drop 2 region_ok))\<rparr>"
    using region_ok_occurrence by (intro find_versions_leftmost(1)) blast+
  with v(1) have "v2' = takeWhile vchar (drop (20 + length ''89.0.4389.90'') (drop 2 region_ok))"
    by simp
  also have "\<dots> = ''89.0.4389.90''"
    by (simp add: region_ok_def version_chars_def)
  finally have "find_versions region_ok
      = Inr \<lparr>webengine = ''89.0.4389.90'', chromium = ''89.0.4389.90''\<rparr>"
    using v(1) by simp
  with version_search_leftmost [of "''Qt5 5.15.2''"] none region_ok_occurrence
  show ?thesis by blast
qed

lemma get_rodata_header_found:
  assumes rel: "reliable env"
    and rh: "read_headers env (open_rb file) = (Inr (b, h, st), f0)"
    and k: "k < shnum h"
    and skip: "\<forall>j<k. \<exists>sh. entry env b h file j = Inr sh \<and> name_of st sh \<noteq> rodata"
    and hit: "entry env b h file k = Inr shk" "name_of st shk = rodata"
  shows "\<exists>f. get_rodata_header env (open_rb file) = (Inr shk, f) \<and> content f = file"
proof -
  from scan_first_match [of env k h b f0 st shk] rel k skip hit get_rodata_header_scan [OF rh]
  have "fst (get_rodata_header env (open_rb file)) = Inr shk"
    by simp
  moreover have "content (snd (get_rodata_header env (open_rb file))) = file"
    by (simp add: get_rodata_header_content open_rb_def)
  ultimately show ?thesis
    by (cases "get_rodata_header env (open_rb file)") simp
qed






lemma image_region:
  assumes "length s = 64"
  shows "take (length r) (drop 4096 (elf_image s r)) = r"
    and "length (elf_image s r) = 4096 + length r"
  by (simp_all add: slices [OF assms])





lemma flaky_agrees:
  assumes "length (calls f) \<noteq> 5"
  shows "Ident_parse flaky_platform f = Ident_parse sound_platform f"
    and "Header_parse flaky_platform b f = Header_parse sound_platform b f"
    and "SectionHeader_parse flaky_platform b f = SectionHeader_parse sound_platform b f"
    and "f_seek flaky_platform off f = f_seek sound_platform off f"
proof -
  have nf: "\<not> faulty flaky_platform (length (calls f))"
    "\<not> faulty sound_platform (length (calls f))"
    using assms by (simp_all add: flaky_platform_def sound_platform_def)
  show "Ident_parse flaky_platform f = Ident_parse sound_platform f"
    by (simp only: Ident_parse_eq [OF nf(1)] Ident_parse_eq [OF nf(2)])
  show "Header_parse flaky_platform b f = Header_parse sound_platform b f"
    by (simp only: Header_parse_eq [OF nf(1)] Header_parse_eq [OF nf(2)])
  show "SectionHeader_parse flaky_platform b f = SectionHeader_parse sound_platform b f"
    by (simp only: SectionHeader_parse_eq [OF nf(1)] SectionHeader_parse_eq [OF nf(2)])
  show "f_seek flaky_platform off f = f_seek sound_platform off f"
    using nf by (simp add: f_seek_def)
qed

lemma flaky_read:
  "length (calls f) = 5 \<Longrightarrow>
   f_read flaky_platform n f = (Inl (Lib OSError), f\<lparr>calls := calls f @ [Read n]\<rparr>)"
  by (simp add: f_read_def flaky_platform_def Let_def)

lemma flaky_get_rodata_header:
  assumes "length s = 64"
  shows "fst (get_rodata_header flaky_platform (open_rb (elf_image s r))) = Inl (Lib OSError)"
proof -
  have h3: "shoff hdr3 + shstrndx hdr3 * shentsize hdr3 = 192"
    by (simp add: hdr3_def)
  have i: "Ident_parse flaky_platform (open_rb (elf_image s r))
      = Ident_parse sound_platform (open_rb (elf_image s r))"
    by (rule flaky_agrees) (simp add: open_rb_def)
  show ?thesis
    by (simp add: get_rodata_header_def i ident_ok [OF assms] flaky_agrees header_ok [OF assms]
        h3 f_seek_reliable sound_platform_reliable shstr_ok [OF assms] flaky_read)
qed

text \<open>
  Claim C2 on the code. The read of the string table (line 217) is not guarded: on a
  platform where this call raises \<^verbatim>\<open>OSError\<close>, the exception leaves
  \<^verbatim>\<open>parse_webenginecore\<close>. So does the \<^verbatim>\<open>ValueError\<close> of \<^verbatim>\<open>mmap\<close> for a section header
  whose size (53 bytes) reaches past the end of the file (46 bytes are left), with no
  failing call at all.
\<close>

theorem failures_escape:
  "parse_webenginecore flaky_platform (Some (elf_image sec_rodata53 region_ok))
     = Inl (Lib OSError)
   \<and> parse_webenginecore sound_platform (Some (elf_image sec_rodata53 region_longer))
     = Inl (Lib ValueError)"
proof -
  have len: "length sec_rodata53 = 64" by (simp add: lens)
  have "fst (get_rodata_header flaky_platform (open_rb (elf_image sec_rodata53 region_ok)))
      = Inl (Lib OSError)"
    by (rule flaky_get_rodata_header [OF len])
  then have a: "parse_webenginecore flaky_platform (Some (elf_image sec_rodata53 region_ok))
     = Inl (Lib OSError)"
    by (cases "get_rodata_header flaky_platform (open_rb (elf_image sec_rodata53 region_ok))")
       (simp add: parse_webenginecore_def parse_from_path_def)
  have k: "1 < shnum hdr3" by (simp add: hdr3_def)
  have skip: "\<forall>j<1. \<exists>sh. entry sound_platform x64 hdr3 (elf_image sec_rodata53 region_longer) j
      = Inr sh \<and> name_of strtab sh \<noteq> rodata"
    by (simp add: entry_image(1) [OF len] names rodata_def)
  have hit: "entry sound_platform x64 hdr3 (elf_image sec_rodata53 region_longer) 1
      = Inr (sh_rodata 53)"
    by (rule entry_image(3) [OF len])
  from get_rodata_header_found [OF sound_platform_reliable headers_ok [OF len] k skip hit names(2)]
  obtain f where f: "get_rodata_header sound_platform (open_rb (elf_image sec_rodata53 region_longer))
      = (Inr (sh_rodata 53), f)" "content f = elf_image sec_rodata53 region_longer"
    by blast
  have l: "length (elf_image sec_rodata53 region_longer) = 4096 + 46"
    by (simp add: image_region(2) [OF len] region_longer_def)
  have "fst (mmap_mmap sound_platform (sh_size (sh_rodata 53)) (sh_offset (sh_rodata 53)) f)
      = Inl (Lib ValueError)"
    by (simp add: mmap_mmap_def Let_def f(2) l sh_rodata_def)
  then have "parse_from_path sound_platform (elf_image sec_rodata53 region_longer)
      = Inl (Lib ValueError)"
    by (cases "mmap_mmap sound_platform (sh_size (sh_rodata 53)) (sh_offset (sh_rodata 53)) f")
       (simp add: parse_from_path_def f(1))
  then have b: "parse_webenginecore sound_platform (Some (elf_image sec_rodata53 region_longer))
     = Inl (Lib ValueError)"
    by (simp add: parse_webenginecore_def)
  from a b show ?thesis by simp
qed

end
